theory Spec2Isabelle
  imports Complex_Main "HOL-Library.Log_Nat" "HOL-Library.Word"
begin

section \<open>The icon generator script \<open>create_icon.py\<close>\<close>

text \<open>
  The script draws a gradient, a radial overlay and a glyph with the imaging library PIL,
  saves the picture and writes a small JSON document; a guard around the call is meant to
  write a constant placeholder picture when PIL is missing.

  The embedding keeps the script's own computations (loops, colour and alpha arithmetic,
  placement, the dictionary, the control flow around the imports) and represents the calls
  into PIL by the list of calls made, in order. Files and standard output are an explicit
  state that every statement passes on.
\<close>

subsection \<open>Python floats\<close>

text \<open>
  A finite IEEE 754 double is represented by the rational number it denotes. \<open>fl\<close>
  rounds a rational to the nearest double, ties to the even significand: \<open>expo\<close>
  is the binary exponent, the significand has 53 bits, and below \<open>2 powi (-1022)\<close>
  the spacing stays that of the subnormal numbers. Overflow to infinity is not
  represented; every value of this script is below \<open>2 ^ 18\<close>.
\<close>

definition expo :: "rat \<Rightarrow> int" where
  "expo x = (let (p, q) = quotient_of x; d = bitlen p - bitlen q
             in if 2 powi d \<le> x then d else d - 1)"

definition rne :: "rat \<Rightarrow> int" where
  "rne m = (let f = \<lfloor>m\<rfloor>; r = m - of_int f
            in if r < 1 / 2 then f
               else if 1 / 2 < r then f + 1
               else if even f then f else f + 1)"

definition fl :: "rat \<Rightarrow> rat" where
  "fl x = (if x = 0 then 0
           else let a = \<bar>x\<bar>; e = max (expo a) (- 1022); u = 2 powi (e - 52)
                in sgn x * of_int (rne (a / u)) * u)"

text \<open>
  Python's \<open>a / b\<close> on two ints is the correctly rounded quotient; the divisors of
  this script are the non-zero constants \<open>size\<close>, \<open>size // 4\<close> and \<open>10\<close>, so
  ZeroDivisionError has no branch. An int operand of a mixed operation is converted
  exactly (all ints here are below \<open>2 ^ 53\<close>), and each operation rounds once.
  \<open>int(x)\<close> truncates towards zero.
\<close>

definition true_div :: "int \<Rightarrow> int \<Rightarrow> rat" where
  "true_div a b = fl (of_int a / of_int b)"

definition fsub :: "rat \<Rightarrow> rat \<Rightarrow> rat" where
  "fsub a b = fl (a - b)"

definition fadd :: "rat \<Rightarrow> rat \<Rightarrow> rat" where
  "fadd a b = fl (a + b)"

definition fmul :: "rat \<Rightarrow> rat \<Rightarrow> rat" where
  "fmul a b = fl (a * b)"

definition py_int :: "rat \<Rightarrow> int" where
  "py_int x = (if 0 \<le> x then \<lfloor>x\<rfloor> else \<lceil>x\<rceil>)"

subsection \<open>Python ranges\<close>

text \<open>
  \<open>range(start, stop, step)\<close> as the list of its elements; the length is the one
  CPython computes. A zero step raises ValueError in Python; the steps of this script
  are the constants \<open>1\<close> and \<open>-1\<close>.
\<close>

definition py_range :: "int \<Rightarrow> int \<Rightarrow> int \<Rightarrow> int list" where
  "py_range start stop step =
     (if 0 < step then
        map (\<lambda>k. start + int k * step) [0 ..< nat ((stop - start + step - 1) div step)]
      else if step < 0 then
        map (\<lambda>k. start + int k * step) [0 ..< nat ((start - stop - step - 1) div (- step))]
      else [])"

subsection \<open>Calls into the drawing library\<close>

type_synonym rgba = "int \<times> int \<times> int \<times> int"
type_synonym point = "int \<times> int"
type_synonym bbox = "int \<times> int \<times> int \<times> int"

datatype font = TrueType string int | DefaultFont

datatype draw_call =
    Rectangle point point rgba
  | Ellipse point point "rgba option" rgba int
  | Text point string font rgba

definition size_px :: int where
  "size_px = 1024"

text \<open>Lines 16 to 22: the gradient loop.\<close>

definition progress :: "int \<Rightarrow> rat" where
  "progress y = true_div y size_px"

definition gradient_color :: "int \<Rightarrow> rgba" where
  "gradient_color y =
     (let p = progress y;
          r = py_int (fadd (fmul 100 (fsub 1 p)) (fmul 40 p));
          g = py_int (fadd (fmul 50 (fsub 1 p)) (fmul 100 p));
          b = py_int (fadd (fmul 255 (fsub 1 p)) (fmul 255 p))
      in (r, g, b, 255))"

definition gradient_calls :: "draw_call list" where
  "gradient_calls =
     map (\<lambda>y. Rectangle (0, y) (size_px, y + 1) (gradient_color y)) (py_range 0 size_px 1)"

text \<open>Lines 25 to 33: the radial overlay. The literal \<open>0.3\<close> is the double nearest to 3/10.\<close>

definition radial_alpha :: "int \<Rightarrow> int" where
  "radial_alpha i =
     py_int (fmul (fmul 255 (fsub 1 (true_div i (size_px div 4)))) (fl (3 / 10)))"

definition radial_calls :: "draw_call list" where
  "radial_calls =
     map (\<lambda>i. Ellipse (size_px div 2 - i, size_px div 2 - i)
                       (size_px div 2 + i, size_px div 2 + i)
                       None (255, 255, 255, radial_alpha i) 2)
         (py_range (size_px div 4) 0 (- 1))"

text \<open>
  What the library does with a rectangle call, for the gradient step only: PIL fills every
  pixel of the bounding box, both corner points included, and a pixel outside the picture
  is dropped. A canvas maps a pixel (column, row) to its colour.
\<close>

type_synonym canvas = "point \<Rightarrow> rgba"

definition blank_canvas :: canvas where
  "blank_canvas = (\<lambda>p. (0, 0, 0, 0))"

definition fill_rect :: "point \<Rightarrow> point \<Rightarrow> rgba \<Rightarrow> canvas \<Rightarrow> canvas" where
  "fill_rect p0 p1 c cv =
     (\<lambda>p. if fst p0 \<le> fst p \<and> fst p \<le> fst p1 \<and> snd p0 \<le> snd p \<and> snd p \<le> snd p1
          then c else cv p)"

fun paint_rects :: "draw_call list \<Rightarrow> canvas \<Rightarrow> canvas" where
  "paint_rects [] cv = cv"
| "paint_rects (Rectangle p0 p1 c # cs) cv = paint_rects cs (fill_rect p0 p1 c cv)"
| "paint_rects (other # cs) cv = paint_rects cs cv"

subsection \<open>The environment of a run\<close>

text \<open>
  What a run depends on outside the script: whether PIL can be imported, whether the
  Helvetica font file loads, what bounding box the library measures for a text in a font,
  and whether the file is run as a program (\<open>__name__ == "__main__"\<close>) or imported.
\<close>

record env =
  pil_installed :: bool
  helvetica_loadable :: bool
  textbbox :: "font \<Rightarrow> string \<Rightarrow> bbox"
  run_as_main :: bool

datatype exn = ImportError | OSError | BinasciiError

definition import_pil :: "env \<Rightarrow> exn + unit" where
  "import_pil e = (if pil_installed e then Inr () else Inl ImportError)"

definition truetype :: "env \<Rightarrow> string \<Rightarrow> int \<Rightarrow> exn + font" where
  "truetype e path font_size =
     (if helvetica_loadable e then Inr (TrueType path font_size) else Inl OSError)"

text \<open>Lines 36 to 42: the bare \<open>except\<close> takes every exception of the font loading.\<close>

definition load_font :: "env \<Rightarrow> font" where
  "load_font e =
     (case truetype e ''/System/Library/Fonts/Helvetica.ttc'' (size_px div 2) of
        Inr f \<Rightarrow> f
      | Inl err \<Rightarrow> DefaultFont)"

text \<open>Lines 44 to 52: the placement of the glyph from its bounding box.\<close>

definition text_position :: "bbox \<Rightarrow> point" where
  "text_position bb =
     (case bb of (b0, b1, b2, b3) \<Rightarrow>
        let text_width = b2 - b0;
            text_height = b3 - b1;
            x = (size_px - text_width) div 2;
            y = (size_px - text_height) div 2 - text_height div 10
        in (x, y))"

text \<open>Lines 55 to 60: the glow loop and the main text. The literal \<open>0.5\<close> is exact.\<close>

definition glow_alpha :: "int \<Rightarrow> int" where
  "glow_alpha offset = py_int (fmul (fmul 255 (fsub 1 (true_div offset 10))) (fl (1 / 2)))"

definition glow_calls :: "font \<Rightarrow> point \<Rightarrow> draw_call list" where
  "glow_calls f pos =
     map (\<lambda>offset. Text pos ''R'' f (255, 255, 255, glow_alpha offset)) (py_range 10 0 (- 1))"

definition main_text_call :: "font \<Rightarrow> point \<Rightarrow> draw_call" where
  "main_text_call f pos = Text pos ''R'' f (255, 255, 255, 255)"

definition text_calls :: "env \<Rightarrow> draw_call list" where
  "text_calls e =
     (let f = load_font e;
          pos = text_position (textbbox e f ''R'')
      in glow_calls f pos @ [main_text_call f pos])"

definition render :: "env \<Rightarrow> draw_call list" where
  "render e = gradient_calls @ radial_calls @ text_calls e"

subsection \<open>The JSON document\<close>

datatype json = JString string | JInt int | JArray "json list" | JObject "(string \<times> json) list"

text \<open>Lines 69 to 82: the dictionary, in the order it is written.\<close>

definition contents :: json where
  "contents =
     JObject
       [(''images'',
          JArray [JObject [(''filename'', JString ''AppIcon.png''),
                           (''idiom'', JString ''universal''),
                           (''platform'', JString ''ios''),
                           (''size'', JString ''1024x1024'')]]),
        (''info'', JObject [(''author'', JString ''xcode''), (''version'', JInt 1)])]"

text \<open>
  \<open>json.dump(obj, f, indent=2)\<close>: each item of a non-empty list or dictionary on a
  line of its own, indented by two spaces per level, items separated by a comma, a key
  from its value by a colon and a space, keys in insertion order, no final newline. In a
  string the quote and the backslash are escaped; the control and non-ASCII characters
  that the library writes as \<open>\u\<close> escapes do not occur in the strings of this script.
\<close>

fun digits :: "nat \<Rightarrow> string" where
  "digits n = (if n < 10 then [char_of (48 + n)] else digits (n div 10) @ [char_of (48 + n mod 10)])"

definition show_int :: "int \<Rightarrow> string" where
  "show_int i = (if i < 0 then CHR ''-'' # digits (nat (- i)) else digits (nat i))"

definition escape_char :: "char \<Rightarrow> string" where
  "escape_char c =
     (if c = CHR 0x22 then [CHR 0x5C, CHR 0x22]
      else if c = CHR 0x5C then [CHR 0x5C, CHR 0x5C]
      else [c])"

definition encode_string :: "string \<Rightarrow> string" where
  "encode_string s = [CHR 0x22] @ concat (map escape_char s) @ [CHR 0x22]"

definition newline_indent :: "nat \<Rightarrow> string" where
  "newline_indent lvl = CHR 0x0A # replicate (2 * lvl) CHR '' ''"

fun join_items :: "string \<Rightarrow> string list \<Rightarrow> string" where
  "join_items sep [] = []"
| "join_items sep [x] = x"
| "join_items sep (x # y # ys) = x @ sep @ join_items sep (y # ys)"

fun encode :: "nat \<Rightarrow> json \<Rightarrow> string" where
  "encode lvl (JString s) = encode_string s"
| "encode lvl (JInt i) = show_int i"
| "encode lvl (JArray vs) =
     (if vs = [] then ''[]''
      else ''['' @ newline_indent (lvl + 1)
           @ join_items ('','' @ newline_indent (lvl + 1)) (map (encode (lvl + 1)) vs)
           @ newline_indent lvl @ '']'')"
| "encode lvl (JObject kvs) =
     (if kvs = [] then ''{}''
      else ''{'' @ newline_indent (lvl + 1)
           @ join_items ('','' @ newline_indent (lvl + 1))
               (map (\<lambda>kv. encode_string (fst kv) @ '': '' @ encode (lvl + 1) (snd kv)) kvs)
           @ newline_indent lvl @ ''}'')"

definition json_dumps :: "json \<Rightarrow> string" where
  "json_dumps v = encode 0 v"

text \<open>
  Reading the document back, as \<open>json.loads\<close> does on the subset of JSON that the
  encoder above writes: objects, arrays, strings with the two escapes, and integers.
  The parser descends on a fuel argument; \<open>json_loads\<close> gives it more fuel than the
  text has characters, and the whole text has to be consumed.
\<close>

definition is_ws :: "char \<Rightarrow> bool" where
  "is_ws c = (c = CHR '' '' \<or> c = CHR 0x0A \<or> c = CHR 0x0D \<or> c = CHR 0x09)"

definition is_digit :: "char \<Rightarrow> bool" where
  "is_digit c = (48 \<le> (of_char c :: nat) \<and> (of_char c :: nat) \<le> 57)"

fun skip_ws :: "string \<Rightarrow> string" where
  "skip_ws [] = []"
| "skip_ws (c # cs) = (if is_ws c then skip_ws cs else c # cs)"

fun parse_chars :: "string \<Rightarrow> (string \<times> string) option" where
  "parse_chars [] = None"
| "parse_chars (c # cs) =
     (if c = CHR 0x22 then Some ([], cs)
      else if c = CHR 0x5C then
        (case cs of
           [] \<Rightarrow> None
         | d # ds \<Rightarrow>
             if d = CHR 0x22 \<or> d = CHR 0x5C
             then (case parse_chars ds of None \<Rightarrow> None | Some (s, r) \<Rightarrow> Some (d # s, r))
             else None)
      else (case parse_chars cs of None \<Rightarrow> None | Some (s, r) \<Rightarrow> Some (c # s, r)))"

definition digits_value :: "string \<Rightarrow> nat" where
  "digits_value ds = foldl (\<lambda>a c. 10 * a + (of_char c - 48)) 0 ds"

definition parse_int :: "string \<Rightarrow> (json \<times> string) option" where
  "parse_int s =
     (let neg = (s \<noteq> [] \<and> hd s = CHR ''-'');
          t = (if neg then tl s else s);
          ds = takeWhile is_digit t
      in if ds = [] then None
         else Some (JInt ((if neg then - 1 else 1) * int (digits_value ds)), dropWhile is_digit t))"

fun parse_value :: "nat \<Rightarrow> string \<Rightarrow> (json \<times> string) option"
  and parse_items :: "nat \<Rightarrow> string \<Rightarrow> (json list \<times> string) option"
  and parse_members :: "nat \<Rightarrow> string \<Rightarrow> ((string \<times> json) list \<times> string) option"
where
  "parse_value 0 s = None"
| "parse_value (Suc n) s =
     (case skip_ws s of
        [] \<Rightarrow> None
      | c # cs \<Rightarrow>
          if c = CHR 0x22 then
            (case parse_chars cs of None \<Rightarrow> None | Some (str, r) \<Rightarrow> Some (JString str, r))
          else if c = CHR ''['' then
            (case skip_ws cs of
               [] \<Rightarrow> None
             | d # ds \<Rightarrow>
                 if d = CHR '']'' then Some (JArray [], ds)
                 else (case parse_items n cs of
                         None \<Rightarrow> None
                       | Some (vs, r) \<Rightarrow> Some (JArray vs, r)))
          else if c = CHR ''{'' then
            (case skip_ws cs of
               [] \<Rightarrow> None
             | d # ds \<Rightarrow>
                 if d = CHR ''}'' then Some (JObject [], ds)
                 else (case parse_members n cs of
                         None \<Rightarrow> None
                       | Some (kvs, r) \<Rightarrow> Some (JObject kvs, r)))
          else parse_int (c # cs))"
| "parse_items 0 s = None"
| "parse_items (Suc n) s =
     (case parse_value n s of
        None \<Rightarrow> None
      | Some (v, r) \<Rightarrow>
          (case skip_ws r of
             [] \<Rightarrow> None
           | c # r' \<Rightarrow>
               if c = CHR '','' then
                 (case parse_items n r' of
                    None \<Rightarrow> None
                  | Some (vs, r'') \<Rightarrow> Some (v # vs, r''))
               else if c = CHR '']'' then Some ([v], r')
               else None))"
| "parse_members 0 s = None"
| "parse_members (Suc n) s =
     (case skip_ws s of
        [] \<Rightarrow> None
      | q # s1 \<Rightarrow>
          if q \<noteq> CHR 0x22 then None
          else
            (case parse_chars s1 of
               None \<Rightarrow> None
             | Some (k, s2) \<Rightarrow>
                 (case skip_ws s2 of
                    [] \<Rightarrow> None
                  | col # s3 \<Rightarrow>
                      if col \<noteq> CHR '':'' then None
                      else
                        (case parse_value n s3 of
                           None \<Rightarrow> None
                         | Some (v, r) \<Rightarrow>
                             (case skip_ws r of
                                [] \<Rightarrow> None
                              | c # r' \<Rightarrow>
                                  if c = CHR '','' then
                                    (case parse_members n r' of
                                       None \<Rightarrow> None
                                     | Some (kvs, r'') \<Rightarrow> Some ((k, v) # kvs, r''))
                                  else if c = CHR ''}'' then Some ([(k, v)], r')
                                  else None)))))"

definition json_loads :: "string \<Rightarrow> json option" where
  "json_loads s =
     (case parse_value (Suc (length s)) s of
        None \<Rightarrow> None
      | Some (v, r) \<Rightarrow> if skip_ws r = [] then Some v else None)"

text \<open>
  The document of the specification's concrete scenario, as the text given there
  (without line breaks or indentation).
\<close>

definition spec_text :: string where
  \<open>spec_text = ''{"images":[{"filename":"AppIcon.png","idiom":"universal","platform":"ios","size":"1024x1024"}],"info":{"author":"xcode","version":1}}''\<close>

subsection \<open>The placeholder picture\<close>

text \<open>
  \<open>base64.b64decode\<close> with its default arguments is \<open>binascii.a2b_base64\<close>: a
  character outside the alphabet is skipped; each alphabet character adds six bits, and
  a byte is written whenever eight are complete; a pad character ends the input once
  it completes a group that already holds two data characters; input that ends inside
  a group is an error. The state is the position in the group, the bits left over, and
  the pad characters seen since the last data character.
\<close>

definition b64_index :: "char \<Rightarrow> nat option" where
  "b64_index c =
     (let n = (of_char c :: nat)
      in if 65 \<le> n \<and> n \<le> 90 then Some (n - 65)
         else if 97 \<le> n \<and> n \<le> 122 then Some (n - 71)
         else if 48 \<le> n \<and> n \<le> 57 then Some (n + 4)
         else if n = 43 then Some 62
         else if n = 47 then Some 63
         else None)"

fun a2b_base64 :: "nat \<Rightarrow> nat \<Rightarrow> nat \<Rightarrow> string \<Rightarrow> 8 word list option" where
  "a2b_base64 quad_pos leftchar pads [] = (if quad_pos = 0 then Some [] else None)"
| "a2b_base64 quad_pos leftchar pads (c # cs) =
     (if c = CHR ''='' then
        (if 2 \<le> quad_pos \<and> 4 \<le> quad_pos + (pads + 1) then Some []
         else a2b_base64 quad_pos leftchar (if 2 \<le> quad_pos then pads + 1 else pads) cs)
      else
        (case b64_index c of
           None \<Rightarrow> a2b_base64 quad_pos leftchar pads cs
         | Some v \<Rightarrow>
             if quad_pos = 0 then a2b_base64 1 v 0 cs
             else if quad_pos = 1 then
               map_option ((#) (of_nat (leftchar * 4 + v div 16)))
                 (a2b_base64 2 (v mod 16) 0 cs)
             else if quad_pos = 2 then
               map_option ((#) (of_nat (leftchar * 16 + v div 4)))
                 (a2b_base64 3 (v mod 4) 0 cs)
             else
               map_option ((#) (of_nat (leftchar * 64 + v)))
                 (a2b_base64 0 0 0 cs)))"

definition b64decode :: "string \<Rightarrow> 8 word list option" where
  "b64decode s = a2b_base64 0 0 0 s"

text \<open>Lines 98 to 100: the literal.\<close>

definition png_literal :: string where
  "png_literal =
     ''iVBORw0KGgoAAAANSUhEUgAAAAEAAAABCAYAAAAfFcSJAAAADUlEQVR42mNkYPhfDwAChwGA60e6kgAAAABJRU5ErkJggg==''"

subsection \<open>Files, output and the script\<close>

text \<open>
  A saved picture is kept as its size and the calls drawn on it (the PNG encoding is the
  library's); the other two kinds of content are bytes and text. Writing a file replaces
  what the path held. A failing write is not represented: the script does not handle one.
\<close>

datatype file_content =
    Picture int int "draw_call list"
  | Bytes "8 word list"
  | Chars string

record world =
  files :: "string \<Rightarrow> file_content option"
  stdout :: "string list"

definition write_file :: "string \<Rightarrow> file_content \<Rightarrow> world \<Rightarrow> world" where
  "write_file path c w = w\<lparr>files := (files w)(path \<mapsto> c)\<rparr>"

definition print :: "string \<Rightarrow> world \<Rightarrow> world" where
  "print line w = w\<lparr>stdout := stdout w @ [line]\<rparr>"

definition icon_path :: string where
  "icon_path =
     ''/Users/alisimacpro/Desktop/RayLink/RayLink/Assets.xcassets/AppIcon.appiconset/AppIcon.png''"

definition contents_path :: string where
  "contents_path =
     ''/Users/alisimacpro/Desktop/RayLink/RayLink/Assets.xcassets/AppIcon.appiconset/Contents.json''"

text \<open>The two signs of the status lines, as their UTF-8 bytes (U+2705; U+26A0 U+FE0F).\<close>

definition check_mark :: string where
  "check_mark = [CHR 0xE2, CHR 0x9C, CHR 0x85]"

definition warning_sign :: string where
  "warning_sign = [CHR 0xE2, CHR 0x9A, CHR 0xA0, CHR 0xEF, CHR 0xB8, CHR 0x8F]"

text \<open>Lines 7 to 86.\<close>

definition create_app_icon :: "env \<Rightarrow> world \<Rightarrow> (exn + unit) \<times> world" where
  "create_app_icon e w =
     (let img = Picture size_px size_px (render e);
          w1 = write_file icon_path img w;
          w2 = print (check_mark @ '' Created app icon: '' @ icon_path) w1;
          w3 = write_file contents_path (Chars (json_dumps contents)) w2;
          w4 = print (check_mark @ '' Updated Contents.json'') w3
      in (Inr (), w4))"

text \<open>Lines 92 to 105: the handler of ImportError.\<close>

definition fallback :: "world \<Rightarrow> (exn + unit) \<times> world" where
  "fallback w =
     (let w1 = print (warning_sign @ ''  PIL not installed. Using fallback method...'') w
      in case b64decode png_literal of
           None \<Rightarrow> (Inl BinasciiError, w1)
         | Some png_data \<Rightarrow>
             (let w2 = write_file icon_path (Bytes png_data) w1;
                  w3 = print (check_mark @ '' Created placeholder app icon'') w2
              in (Inr (), w3)))"

text \<open>Lines 88 to 105: the guarded block, entered when the file runs as a program.\<close>

definition main_block :: "env \<Rightarrow> world \<Rightarrow> (exn + unit) \<times> world" where
  "main_block e w =
     (case import_pil e of
        Inl err \<Rightarrow> (if err = ImportError then fallback w else (Inl err, w))
      | Inr u \<Rightarrow>
          (case create_app_icon e w of
             (Inl err, w') \<Rightarrow> (if err = ImportError then fallback w' else (Inl err, w'))
           | (Inr u', w') \<Rightarrow> (Inr u', w')))"

text \<open>
  The whole file, top to bottom: the import of line 4 stands outside every \<open>try\<close>, so
  an exception it raises ends the run there.
\<close>

definition script :: "env \<Rightarrow> world \<Rightarrow> (exn + unit) \<times> world" where
  "script e w =
     (case import_pil e of
        Inl err \<Rightarrow> (Inl err, w)
      | Inr u \<Rightarrow> (if run_as_main e then main_block e w else (Inr (), w)))"

subsection \<open>Sample runs\<close>

text \<open>
  Concrete environments and a concrete initial state, for the closed instances of the
  theorems below: a machine with PIL and the Helvetica file, one with PIL only, and one
  without PIL; a file system with no files and an empty output.
\<close>

definition sample_bbox :: "font \<Rightarrow> string \<Rightarrow> bbox" where
  "sample_bbox f t = (case f of TrueType p n \<Rightarrow> (3, 7, 300, 407) | DefaultFont \<Rightarrow> (0, 2, 6, 11))"

definition env_full :: env where
  "env_full = \<lparr>pil_installed = True, helvetica_loadable = True,
                textbbox = sample_bbox, run_as_main = True\<rparr>"

definition env_plain :: env where
  "env_plain = \<lparr>pil_installed = True, helvetica_loadable = False,
                 textbbox = sample_bbox, run_as_main = True\<rparr>"

definition env_no_pil :: env where
  "env_no_pil = \<lparr>pil_installed = False, helvetica_loadable = True,
                  textbbox = sample_bbox, run_as_main = True\<rparr>"

definition empty_world :: world where
  "empty_world = \<lparr>files = (\<lambda>p. None), stdout = []\<rparr>"

section \<open>Properties\<close>

subsection \<open>Rounding\<close>

text \<open>
  The exponent brackets its argument, rounding to an integer is off by at most one half,
  a number with a 53-bit significand is its own rounding, and the relative error of a
  rounding in the normal range is at most \<open>2 ^ - 53\<close>.
\<close>

lemma bitlen_powi:
  assumes "0 < p"
  shows "(2::rat) powi (bitlen p - 1) \<le> of_int p" and "of_int p < (2::rat) powi (bitlen p)"
proof -
  from bitlen_bounds[OF assms]
  have lo: "2 ^ nat (bitlen p - 1) \<le> p" and hi: "p < 2 ^ nat (bitlen p)" by simp_all
  have b1: "1 \<le> bitlen p"
    using assms bitlen_eq_zero_iff[of p] bitlen_nonneg[of p] by linarith
  have "(of_int (2 ^ nat (bitlen p - 1)) :: rat) \<le> of_int p"
    using lo by (simp only: of_int_le_iff)
  then show "(2::rat) powi (bitlen p - 1) \<le> of_int p"
    using b1 by (simp add: power_int_nonneg_exp)
  have "(of_int p :: rat) < of_int (2 ^ nat (bitlen p))"
    using hi by (simp only: of_int_less_iff)
  then show "of_int p < (2::rat) powi (bitlen p)"
    using b1 by (simp add: power_int_nonneg_exp)
qed

lemma expo_bounds:
  assumes "0 < x"
  shows "2 powi (expo x) \<le> x" and "x < 2 powi (expo x + 1)"
proof -
  obtain p q where pq: "quotient_of x = (p, q)" by (cases "quotient_of x")
  have q: "0 < q" using quotient_of_denom_pos[OF pq] .
  have x: "x = of_int p / of_int q" using quotient_of_div[OF pq] .
  have p: "0 < p" using assms q x by (simp add: zero_less_divide_iff)
  let ?d = "bitlen p - bitlen q"
  have qr: "(0::rat) < of_int q" using q by simp
  have "x < 2 powi (bitlen p) / 2 powi (bitlen q - 1)"
    unfolding x using bitlen_powi[OF p] bitlen_powi[OF q] qr
    by (intro frac_less) (use p in auto)
  also have "\<dots> = 2 powi (?d + 1)"
    by (simp add: power_int_diff[symmetric] algebra_simps)
  finally have up: "x < 2 powi (?d + 1)" .
  have "2 powi (bitlen p - 1) / 2 powi (bitlen q) < x"
    unfolding x using bitlen_powi[OF p] bitlen_powi[OF q] qr
    by (intro frac_less2) auto
  then have lo: "2 powi (?d - 1) < x"
    by (simp add: power_int_diff[symmetric] algebra_simps)
  have e: "expo x = (if 2 powi ?d \<le> x then ?d else ?d - 1)"
    by (simp add: expo_def pq Let_def)
  show "2 powi (expo x) \<le> x" using lo by (simp add: e less_imp_le)
  show "x < 2 powi (expo x + 1)" using up by (simp add: e not_le)
qed

lemma powi2_less_exp:
  assumes "(2::rat) powi m < 2 powi n"
  shows "m < n"
proof (rule ccontr)
  assume "\<not> m < n"
  then have "n \<le> m" by simp
  then have "(2::rat) powi n \<le> 2 powi m" by (rule power_int_increasing) simp
  with assms show False by simp
qed

lemma rne_of_int: "rne (of_int n) = n"
  by (simp add: rne_def)

lemma rne_error: "\<bar>of_int (rne m) - m\<bar> \<le> 1 / 2"
proof -
  have "of_int \<lfloor>m\<rfloor> \<le> m" and "m < of_int \<lfloor>m\<rfloor> + 1" by linarith+
  then show ?thesis by (auto simp: rne_def Let_def)
qed

lemma fl_pos:
  assumes "0 < x"
  shows "fl x = of_int (rne (x / 2 powi (max (expo x) (- 1022) - 52)))
                * 2 powi (max (expo x) (- 1022) - 52)"
  using assms by (simp add: fl_def Let_def)

lemma fl_exact_pos:
  assumes k: "0 < k" "k < 2 ^ 53" and j: "- 1074 \<le> j"
  shows "fl (of_int k * 2 powi j) = of_int k * 2 powi j"
proof -
  let ?x = "of_int k * (2::rat) powi j"
  let ?e = "max (expo ?x) (- 1022)"
  have pos: "0 < ?x" using k by simp
  have "?x < of_int (2 ^ 53) * 2 powi j"
    using k(2) by (intro mult_strict_right_mono) (simp_all only: of_int_less_iff, simp)
  also have "\<dots> = 2 powi (53 + j)" by (simp add: power_int_add)
  finally have "2 powi (expo ?x) < (2::rat) powi (53 + j)"
    using expo_bounds(1)[OF pos] by simp
  then have "expo ?x < 53 + j" by (rule powi2_less_exp)
  then have d: "0 \<le> j - (?e - 52)" using j by simp
  have "?x / 2 powi (?e - 52) = of_int k * 2 powi (j - (?e - 52))"
    by (simp add: power_int_diff)
  also have "\<dots> = of_int (k * 2 ^ nat (j - (?e - 52)))"
    using d by (simp add: power_int_nonneg_exp)
  finally have q: "?x / 2 powi (?e - 52) = of_int (k * 2 ^ nat (j - (?e - 52)))" .
  have "fl ?x = of_int (rne (?x / 2 powi (?e - 52))) * 2 powi (?e - 52)"
    by (rule fl_pos[OF pos])
  also have "\<dots> = ?x / 2 powi (?e - 52) * 2 powi (?e - 52)"
    by (simp only: q rne_of_int)
  also have "\<dots> = ?x" by simp
  finally show ?thesis .
qed

lemma fl_error:
  assumes "2 powi (- 1022) \<le> x"
  shows "\<bar>fl x - x\<bar> \<le> x / 2 ^ 53"
proof -
  have pos: "0 < x" using assms by (rule order_less_le_trans[rotated]) simp
  have "(2::rat) powi (- 1022) < 2 powi (expo x + 1)"
    using assms expo_bounds(2)[OF pos] by simp
  then have "- 1022 < expo x + 1" by (rule powi2_less_exp)
  then have e: "max (expo x) (- 1022) = expo x" by simp
  let ?u = "(2::rat) powi (expo x - 52)"
  have u: "0 < ?u" by simp
  have "fl x - x = (of_int (rne (x / ?u)) - x / ?u) * ?u"
    using fl_pos[OF pos] by (simp add: e algebra_simps)
  then have "\<bar>fl x - x\<bar> = \<bar>of_int (rne (x / ?u)) - x / ?u\<bar> * ?u"
    by (simp add: abs_mult)
  also have "\<dots> \<le> 1 / 2 * ?u"
    using rne_error[of "x / ?u"] u by (intro mult_right_mono) simp_all
  also have "\<dots> = 2 powi (expo x) / 2 ^ 53"
    by (simp add: power_int_diff)
  also have "\<dots> \<le> x / 2 ^ 53"
    using expo_bounds(1)[OF pos] by (simp add: divide_right_mono)
  finally show ?thesis .
qed

subsection \<open>Placement of the glyph\<close>

text \<open>
  Claim C6. Given the measured bounding box of the glyph, of width \<open>w = b2 - b0\<close> and height
  \<open>h = b3 - b1\<close>, every text call of the run (the glow passes and the main text) is placed at
  \<open>x = (size - w) // 2\<close> and \<open>y = (size - h) // 2 - h // 10\<close>: centred horizontally, and
  centred vertically with a shift upwards by a tenth of the glyph's height. Python's \<open>//\<close> on
  ints and \<open>div\<close> on \<open>int\<close> both round towards minus infinity.
\<close>

theorem text_placement:
  assumes "textbbox e (load_font e) ''R'' = (b0, b1, b2, b3)"
  shows "text_calls e =
           map (\<lambda>a. Text ((size_px - (b2 - b0)) div 2,
                          (size_px - (b3 - b1)) div 2 - (b3 - b1) div 10)
                         ''R'' (load_font e) (255, 255, 255, a))
               (map glow_alpha (py_range 10 0 (- 1)) @ [255])"
  using assms
  by (simp add: text_calls_def glow_calls_def main_text_call_def text_position_def Let_def)

theorem text_placement_witness:
  "textbbox env_full (load_font env_full) ''R'' = (3, 7, 300, 407) \<and>
   text_calls env_full =
     map (\<lambda>a. Text (363, 272) ''R'' (TrueType ''/System/Library/Fonts/Helvetica.ttc'' 512)
                    (255, 255, 255, a))
         (map glow_alpha (py_range 10 0 (- 1)) @ [255])"
proof -
  have h: "textbbox env_full (load_font env_full) ''R'' = (3, 7, 300, 407)"
    by (simp add: env_full_def load_font_def truetype_def sample_bbox_def)
  have f: "load_font env_full = TrueType ''/System/Library/Fonts/Helvetica.ttc'' 512"
    by (simp add: env_full_def load_font_def truetype_def size_px_def)
  show ?thesis
    using h text_placement [OF h] by (simp add: f size_px_def)
qed

subsection \<open>A run of the script\<close>

text \<open>
  The literal decodes to the 70 bytes of a PNG file; the two paths differ; the document
  read back from its text is the dictionary; and the three blocks of the script in closed
  form: the function never raises, the handler writes one file, and the import of line 4
  decides before the guarded block is entered.
\<close>

lemma png_literal_decoded:
  "b64decode png_literal = Some
    [137, 80, 78, 71, 13, 10, 26, 10, 0, 0, 0, 13, 73, 72, 68, 82, 0, 0, 0, 1,
     0, 0, 0, 1, 8, 6, 0, 0, 0, 31, 21, 196, 137, 0, 0, 0, 13, 73, 68, 65, 84,
     120, 218, 99, 100, 96, 248, 95, 15, 0, 2, 135, 1, 128, 235, 71, 186, 146,
     0, 0, 0, 0, 73, 69, 78, 68, 174, 66, 96, 130]"
  by code_simp

lemma paths_differ: "icon_path \<noteq> contents_path"
  by (simp add: icon_path_def contents_path_def)

lemma loads_dumps_contents: "json_loads (json_dumps contents) = Some contents"
  by code_simp

lemma loads_spec_text: "json_loads spec_text = Some contents"
  by code_simp

lemma create_app_icon_result:
  "create_app_icon e w =
     (Inr (),
      \<lparr>files = (files w)(icon_path \<mapsto> Picture size_px size_px (render e),
                          contents_path \<mapsto> Chars (json_dumps contents)),
       stdout = stdout w @ [check_mark @ '' Created app icon: '' @ icon_path,
                            check_mark @ '' Updated Contents.json'']\<rparr>)"
  by (simp add: create_app_icon_def write_file_def print_def Let_def)

lemma fallback_result:
  "fallback w =
     (Inr (),
      \<lparr>files = (files w)(icon_path \<mapsto> Bytes (the (b64decode png_literal))),
       stdout = stdout w @ [warning_sign @ ''  PIL not installed. Using fallback method...'',
                            check_mark @ '' Created placeholder app icon'']\<rparr>)"
  by (simp add: fallback_def png_literal_decoded write_file_def print_def Let_def)

lemma main_block_result:
  "main_block e w = (if pil_installed e then create_app_icon e w else fallback w)"
  by (simp add: main_block_def import_pil_def create_app_icon_result)

lemma script_result:
  "script e w =
     (if \<not> pil_installed e then (Inl ImportError, w)
      else if run_as_main e then create_app_icon e w
      else (Inr (), w))"
  by (simp add: script_def import_pil_def main_block_result)

text \<open>
  Claim C7. On the success path (PIL imports, the file runs as a program) the file at the
  metadata path holds the serialised dictionary; parsed, it has one entry in its
  \<open>images\<close> list with \<open>filename = "AppIcon.png"\<close>, \<open>idiom = "universal"\<close>,
  \<open>platform = "ios"\<close>, \<open>size = "1024x1024"\<close>, and an \<open>info\<close> record with
  \<open>author = "xcode"\<close> and \<open>version = 1\<close>; and the text of the specification's scenario
  parses to the same value.
\<close>

theorem metadata_document:
  assumes "pil_installed e" and "run_as_main e"
  shows "files (snd (script e w)) contents_path = Some (Chars (json_dumps contents)) \<and>
         json_loads (json_dumps contents) =
           Some (JObject
             [(''images'',
                JArray [JObject [(''filename'', JString ''AppIcon.png''),
                                 (''idiom'', JString ''universal''),
                                 (''platform'', JString ''ios''),
                                 (''size'', JString ''1024x1024'')]]),
              (''info'', JObject [(''author'', JString ''xcode''), (''version'', JInt 1)])]) \<and>
         json_loads spec_text = json_loads (json_dumps contents)"
proof (intro conjI)
  show "files (snd (script e w)) contents_path = Some (Chars (json_dumps contents))"
    using assms by (simp add: script_result create_app_icon_result)
  show "json_loads (json_dumps contents) =
           Some (JObject
             [(''images'',
                JArray [JObject [(''filename'', JString ''AppIcon.png''),
                                 (''idiom'', JString ''universal''),
                                 (''platform'', JString ''ios''),
                                 (''size'', JString ''1024x1024'')]]),
              (''info'', JObject [(''author'', JString ''xcode''), (''version'', JInt 1)])])"
    unfolding loads_dumps_contents by (simp add: contents_def)
  show "json_loads spec_text = json_loads (json_dumps contents)"
    by (simp only: loads_spec_text loads_dumps_contents)
qed

theorem metadata_document_witness:
  "pil_installed env_full \<and> run_as_main env_full \<and>
   files (snd (script env_full empty_world)) contents_path = Some (Chars (json_dumps contents)) \<and>
   json_loads spec_text = json_loads (json_dumps contents)"
proof -
  have a: "pil_installed env_full" and b: "run_as_main env_full"
    by (simp_all add: env_full_def)
  show ?thesis
    using a b metadata_document [OF a b, of empty_world] by simp
qed

text \<open>
  Claim C8. Any two runs on the success path, whatever the fonts, the measured boxes and
  the files and output before each run, leave the same bytes at the metadata path: the
  serialised dictionary, which depends on no input.
\<close>

theorem metadata_deterministic:
  assumes "pil_installed e1" and "run_as_main e1" and "pil_installed e2" and "run_as_main e2"
  shows "files (snd (script e1 w1)) contents_path = files (snd (script e2 w2)) contents_path \<and>
         files (snd (script e1 w1)) contents_path = Some (Chars (json_dumps contents))"
  using assms by (simp add: script_result create_app_icon_result)

theorem metadata_deterministic_witness:
  "pil_installed env_full \<and> run_as_main env_full \<and> pil_installed env_plain \<and> run_as_main env_plain \<and>
   files (snd (script env_full empty_world)) contents_path =
   files (snd (script env_plain (snd (script env_full empty_world)))) contents_path"
proof -
  have a: "pil_installed env_full" and b: "run_as_main env_full"
    and c: "pil_installed env_plain" and d: "run_as_main env_plain"
    by (simp_all add: env_full_def env_plain_def)
  show ?thesis
    using a b c d
      metadata_deterministic [OF a b c d, of empty_world "snd (script env_full empty_world)"]
    by simp
qed

text \<open>
  Claim C2. A run has at most one of the two outcomes. The guarded block either writes the
  picture and the metadata document (its import succeeds), or writes the placeholder bytes
  at the picture path alone and leaves the metadata path as it was (its import raises
  ImportError); the outcomes exclude each other. The whole file either takes the success
  path or changes no file at all.
\<close>

theorem one_outcome_per_run:
  "((pil_installed e \<and>
     files (snd (main_block e w)) =
       (files w)(icon_path \<mapsto> Picture size_px size_px (render e),
                 contents_path \<mapsto> Chars (json_dumps contents)))
    \<or>
    (\<not> pil_installed e \<and>
     (\<exists>bs. b64decode png_literal = Some bs \<and>
           files (snd (main_block e w)) = (files w)(icon_path \<mapsto> Bytes bs)) \<and>
     files (snd (main_block e w)) contents_path = files w contents_path))
   \<and>
   ((pil_installed e \<and> run_as_main e \<and>
     files (snd (script e w)) =
       (files w)(icon_path \<mapsto> Picture size_px size_px (render e),
                 contents_path \<mapsto> Chars (json_dumps contents)))
    \<or>
    ((\<not> pil_installed e \<or> \<not> run_as_main e) \<and> files (snd (script e w)) = files w))"
  by (simp add: main_block_result script_result create_app_icon_result fallback_result
      png_literal_decoded paths_differ paths_differ[symmetric])

theorem one_outcome_per_run_witness:
  "files (snd (main_block env_full empty_world)) contents_path = Some (Chars (json_dumps contents)) \<and>
   files (snd (main_block env_no_pil empty_world)) contents_path = None \<and>
   files (snd (script env_no_pil empty_world)) icon_path = None"
  using one_outcome_per_run [of env_full empty_world] one_outcome_per_run [of env_no_pil empty_world]
  by (auto simp: env_full_def env_no_pil_def empty_world_def paths_differ paths_differ[symmetric])

text \<open>
  Claim C1. Without PIL, a run of the script should leave the decoded placeholder at the
  picture path and print the placeholder status line: lines 89 to 105 catch ImportError
  and print that PIL is not installed. The code does not do so. The import of line 4
  stands outside the \<open>try\<close>, so on a machine without PIL the run ends there with
  ImportError: the state is unchanged, no file exists at the picture path and nothing is
  printed. (The literal itself decodes to 70 bytes.)
\<close>

theorem fallback_unreachable:
  "script env_no_pil empty_world = (Inl ImportError, empty_world) \<and>
   files (snd (script env_no_pil empty_world)) icon_path = None \<and>
   stdout (snd (script env_no_pil empty_world)) = [] \<and>
   map_option length (b64decode png_literal) = Some 70"
  by (simp add: script_result env_no_pil_def empty_world_def png_literal_decoded)

subsection \<open>Exact float arithmetic on dyadic fractions\<close>

text \<open>
  A fraction \<open>k / 2 ^ n\<close> with \<open>0 \<le> k < 2 ^ 53\<close> is a double, so a division by a
  power of two, and a difference, sum or product whose exact value is such a fraction,
  are computed without rounding error; truncation is then integer division.
\<close>

lemma fl_dyadic:
  assumes "0 \<le> k" "k < 2 ^ 53" "n \<le> 1074"
  shows "fl (of_int k / 2 ^ n) = of_int k / 2 ^ n"
proof (cases "k = 0")
  case True
  then show ?thesis by (simp add: fl_def)
next
  case False
  have e: "of_int k / (2::rat) ^ n = of_int k * 2 powi (- int n)"
    by (simp add: power_int_minus divide_inverse)
  have k: "0 < k" using assms(1) False by simp
  have n: "- 1074 \<le> - int n" using assms(3) by simp
  show ?thesis
    unfolding e by (rule fl_exact_pos[OF k assms(2) n])
qed

lemma py_int_div:
  assumes "0 \<le> k" "0 < d"
  shows "py_int (of_int k / of_int d) = k div d"
proof -
  have "(0::rat) \<le> of_int k / of_int d" using assms by simp
  then show ?thesis by (simp add: py_int_def floor_divide_of_int_eq)
qed

lemma py_range_up: "py_range 0 n 1 = map int [0 ..< nat n]"
  by (simp add: py_range_def)

lemma py_range_down: "py_range n 0 (- 1) = map (\<lambda>k. n - int k) [0 ..< nat n]"
  by (simp add: py_range_def)

lemma py_int_dyadic:
  assumes "0 \<le> k"
  shows "py_int (of_int k / 2 ^ n) = k div 2 ^ n"
proof -
  have "py_int (of_int k / of_int (2 ^ n)) = k div 2 ^ n"
    using assms by (intro py_int_div) simp_all
  then show ?thesis by simp
qed

lemma true_div_dyadic:
  assumes "0 \<le> k" "k < 2 ^ 53" "n \<le> 1074"
  shows "true_div k (2 ^ n) = of_int k / 2 ^ n"
  using fl_dyadic[OF assms] by (simp add: true_div_def)

lemma fsub_dyadic:
  assumes "b \<le> a" "a - b < 2 ^ 53" "n \<le> 1074"
  shows "fsub (of_int a / 2 ^ n) (of_int b / 2 ^ n) = of_int (a - b) / 2 ^ n"
proof -
  have "of_int a / (2::rat) ^ n - of_int b / 2 ^ n = of_int (a - b) / 2 ^ n"
    by (simp add: diff_divide_distrib)
  moreover have "fl (of_int (a - b) / 2 ^ n) = of_int (a - b) / 2 ^ n"
    using assms by (intro fl_dyadic) simp_all
  ultimately show ?thesis by (simp only: fsub_def)
qed

lemma fadd_dyadic:
  assumes "0 \<le> a + b" "a + b < 2 ^ 53" "n \<le> 1074"
  shows "fadd (of_int a / 2 ^ n) (of_int b / 2 ^ n) = of_int (a + b) / 2 ^ n"
proof -
  have "of_int a / (2::rat) ^ n + of_int b / 2 ^ n = of_int (a + b) / 2 ^ n"
    by (simp add: add_divide_distrib)
  moreover have "fl (of_int (a + b) / 2 ^ n) = of_int (a + b) / 2 ^ n"
    using assms by (intro fl_dyadic)
  ultimately show ?thesis by (simp only: fadd_def)
qed

lemma fmul_dyadic:
  assumes "0 \<le> c * k" "c * k < 2 ^ 53" "n \<le> 1074"
  shows "fmul (of_int c) (of_int k / 2 ^ n) = of_int (c * k) / 2 ^ n"
proof -
  have "of_int c * (of_int k / (2::rat) ^ n) = of_int (c * k) / 2 ^ n"
    by simp
  moreover have "fl (of_int (c * k) / 2 ^ n) = of_int (c * k) / 2 ^ n"
    using assms by (intro fl_dyadic)
  ultimately show ?thesis by (simp only: fmul_def)
qed

subsection \<open>The gradient colours\<close>

text \<open>
  With \<open>size = 1024\<close> every intermediate value of the gradient loop is a multiple of
  \<open>1 / 1024\<close> below \<open>2 ^ 19\<close>, hence exact: the float computation of a channel is the
  integer quotient of the blended endpoints.
\<close>

lemma progress_exact:
  assumes "0 \<le> y" "y \<le> 1024"
  shows "progress y = of_int y / 1024"
  using true_div_dyadic[of y 10] assms by (simp add: progress_def size_px_def)

lemma blend_exact:
  assumes y: "0 \<le> y" "y \<le> 1024" and c: "0 \<le> c0" "c0 \<le> 255" "0 \<le> c1" "c1 \<le> 255"
  shows "py_int (fadd (fmul (of_int c0) (fsub 1 (of_int y / 1024))) (fmul (of_int c1) (of_int y / 1024)))
         = (c0 * (1024 - y) + c1 * y) div 1024"
proof -
  have one: "(1::rat) = of_int 1024 / 2 ^ 10" by simp
  have frac: "of_int y / (1024::rat) = of_int y / 2 ^ 10" by simp
  have a: "0 \<le> c0 * (1024 - y)" "0 \<le> c1 * y" using y c by simp_all
  have "c0 * (1024 - y) \<le> 255 * 1024"
    using y c by (intro mult_mono) simp_all
  then have b0: "c0 * (1024 - y) < 2 ^ 53" by simp
  have "c1 * y \<le> 255 * 1024"
    using y c by (intro mult_mono) simp_all
  then have b1: "c1 * y < 2 ^ 53" by simp
  have "c0 * (1024 - y) + c1 * y \<le> 255 * 1024 + 255 * 1024"
    using \<open>c0 * (1024 - y) \<le> 255 * 1024\<close> \<open>c1 * y \<le> 255 * 1024\<close> by linarith
  then have b2: "c0 * (1024 - y) + c1 * y < 2 ^ 53" by simp
  have s: "fsub 1 (of_int y / 2 ^ 10) = of_int (1024 - y) / 2 ^ 10"
    unfolding one using y by (intro fsub_dyadic) simp_all
  have m0: "fmul (of_int c0) (of_int (1024 - y) / 2 ^ 10) = of_int (c0 * (1024 - y)) / 2 ^ 10"
    using a(1) b0 by (intro fmul_dyadic) simp_all
  have m1: "fmul (of_int c1) (of_int y / 2 ^ 10) = of_int (c1 * y) / 2 ^ 10"
    using a(2) b1 by (intro fmul_dyadic) simp_all
  have ad: "fadd (of_int (c0 * (1024 - y)) / 2 ^ 10) (of_int (c1 * y) / 2 ^ 10)
            = of_int (c0 * (1024 - y) + c1 * y) / 2 ^ 10"
    using a b2 by (intro fadd_dyadic) simp_all
  have "py_int (of_int (c0 * (1024 - y) + c1 * y) / 2 ^ 10) = (c0 * (1024 - y) + c1 * y) div 2 ^ 10"
    using a by (intro py_int_dyadic) simp
  then show ?thesis
    by (simp only: frac s m0 m1 ad) simp
qed

lemma gradient_color_exact:
  assumes "0 \<le> y" "y \<le> 1024"
  shows "gradient_color y =
           ((100 * (1024 - y) + 40 * y) div 1024, (50 * (1024 - y) + 100 * y) div 1024, 255, 255)"
proof -
  have r: "py_int (fadd (fmul 100 (fsub 1 (of_int y / 1024))) (fmul 40 (of_int y / 1024)))
           = (100 * (1024 - y) + 40 * y) div 1024"
    using blend_exact[OF assms, of 100 40] by simp
  have g: "py_int (fadd (fmul 50 (fsub 1 (of_int y / 1024))) (fmul 100 (of_int y / 1024)))
           = (50 * (1024 - y) + 100 * y) div 1024"
    using blend_exact[OF assms, of 50 100] by simp
  have b: "py_int (fadd (fmul 255 (fsub 1 (of_int y / 1024))) (fmul 255 (of_int y / 1024)))
           = 255"
    using blend_exact[OF assms, of 255 255] by simp
  show ?thesis
    unfolding gradient_color_def Let_def progress_exact[OF assms] r g b ..
qed

subsection \<open>The glow alphas\<close>

text \<open>
  The ten alphas of the glow loop and the double of the literal \<open>0.3\<close>, by evaluation of
  the rounding function.
\<close>

lemma glow_alpha_10: "glow_alpha 10 = 0"
  by code_simp

lemma glow_alpha_9: "glow_alpha 9 = 12"
  by code_simp

lemma glow_alpha_8: "glow_alpha 8 = 25"
  by code_simp

lemma glow_alpha_7: "glow_alpha 7 = 38"
  by code_simp

lemma glow_alpha_6: "glow_alpha 6 = 51"
  by code_simp

lemma glow_alpha_5: "glow_alpha 5 = 63"
  by code_simp

lemma glow_alpha_4: "glow_alpha 4 = 76"
  by code_simp

lemma glow_alpha_3: "glow_alpha 3 = 89"
  by code_simp

lemma glow_alpha_2: "glow_alpha 2 = 102"
  by code_simp

lemma glow_alpha_1: "glow_alpha 1 = 114"
  by code_simp

lemma fl_three_tenths: "fl (3 / 10) = 5404319552844595 / 18014398509481984"
  by code_simp

lemma py_range_10: "py_range 10 0 (- 1) = [10, 9, 8, 7, 6, 5, 4, 3, 2, 1]"
  by code_simp

lemma glow_alphas:
  "map glow_alpha (py_range 10 0 (- 1)) = [0, 12, 25, 38, 51, 63, 76, 89, 102, 114]"
  by (simp add: py_range_10 glow_alpha_10 glow_alpha_9 glow_alpha_8 glow_alpha_7 glow_alpha_6
      glow_alpha_5 glow_alpha_4 glow_alpha_3 glow_alpha_2 glow_alpha_1)

lemma literal_bound: "py_int (fmul (fmul 255 (fl (9 / 10))) (fl (1 / 2))) = 114"
  by code_simp

text \<open>
  Claim C3, as stated, fails: the loop runs the offset from 10 down to 1 and the alpha is
  \<open>255 * (1 - offset / 10) * 0.5\<close>, so the first pass has alpha 0, the second 12, and
  the alphas are not decreasing.
\<close>

theorem glow_alpha_not_decreasing_counterexample:
  "map glow_alpha (py_range 10 0 (- 1)) ! 0 = 0 \<and>
   map glow_alpha (py_range 10 0 (- 1)) ! 1 = 12 \<and>
   map glow_alpha (py_range 10 0 (- 1)) ! 0 < map glow_alpha (py_range 10 0 (- 1)) ! 1"
  by (simp add: glow_alphas)

text \<open>
  Claim C3, amended. In the glow step the glyph is rendered ten times at the same position
  with the alpha value increasing from one pass to the next (0, 12, 25, 38, 51, 63, 76, 89,
  102, 114), followed by one final render, at that position, at full opacity 255.
\<close>

theorem glow_passes:
  "text_calls e =
     map (\<lambda>a. Text (text_position (textbbox e (load_font e) ''R'')) ''R'' (load_font e)
                    (255, 255, 255, a))
         [0, 12, 25, 38, 51, 63, 76, 89, 102, 114, 255] \<and>
   sorted_wrt (\<lambda>a b. a < b) (map glow_alpha (py_range 10 0 (- 1)) @ [255])"
proof -
  have "text_calls e =
     map (\<lambda>a. Text (text_position (textbbox e (load_font e) ''R'')) ''R'' (load_font e)
                    (255, 255, 255, a))
         (map glow_alpha (py_range 10 0 (- 1)) @ [255])"
    by (simp add: text_calls_def glow_calls_def main_text_call_def Let_def)
  then show ?thesis by (simp add: glow_alphas)
qed

text \<open>
  Claim C9. The first pass of the glow loop (offset 10) has alpha 0; every pass has an alpha
  of at most 114, which is \<open>int(255 * 0.9 * 0.5)\<close>, and so below 128.
\<close>

theorem glow_alpha_bounds:
  "hd (py_range 10 0 (- 1)) = 10 \<and> glow_alpha 10 = 0 \<and>
   (\<forall>offset \<in> set (py_range 10 0 (- 1)). 0 \<le> glow_alpha offset \<and> glow_alpha offset \<le> 114) \<and>
   py_int (fmul (fmul 255 (fl (9 / 10))) (fl (1 / 2))) = 114 \<and>
   (\<forall>offset \<in> set (py_range 10 0 (- 1)). glow_alpha offset < 128)"
  by (simp add: py_range_10 literal_bound glow_alpha_10 glow_alpha_9 glow_alpha_8 glow_alpha_7
      glow_alpha_6 glow_alpha_5 glow_alpha_4 glow_alpha_3 glow_alpha_2 glow_alpha_1)

theorem glow_alpha_bounds_witness:
  "1 \<in> set (py_range 10 0 (- 1)) \<and> glow_alpha 1 \<le> 114 \<and> glow_alpha 1 < 128"
proof -
  have m: "1 \<in> set (py_range 10 0 (- 1))" by (simp add: py_range_10)
  from glow_alpha_bounds
  have "\<forall>offset \<in> set (py_range 10 0 (- 1)). 0 \<le> glow_alpha offset \<and> glow_alpha offset \<le> 114"
    and "\<forall>offset \<in> set (py_range 10 0 (- 1)). glow_alpha offset < 128"
    by blast+
  with m show ?thesis by blast
qed

subsection \<open>The gradient loop\<close>

text \<open>
  The loop makes one rectangle call per row, in the order of the rows. With the library's
  filling of a rectangle (both corners included) a call covers the rows \<open>y\<close> and
  \<open>y + 1\<close>, and the call of the next row paints over the second: after the loop every
  row of the picture carries its own colour over the full width.
\<close>

lemma set_py_range_up: "set (py_range 0 n 1) = {0 ..< n}"
proof -
  have "int ` {0 ..< nat n} = {int 0 ..< int (nat n)}"
    by (rule image_int_atLeastLessThan)
  also have "\<dots> = {0 ..< n}" by auto
  finally show ?thesis by (simp add: py_range_up)
qed

lemma nth_py_range_up:
  assumes "0 \<le> y" "y < n"
  shows "py_range 0 n 1 ! nat y = y"
  using assms by (simp add: py_range_up)

lemma gradient_calls_nth:
  assumes "0 \<le> y" "y < size_px"
  shows "gradient_calls ! nat y = Rectangle (0, y) (size_px, y + 1) (gradient_color y)"
proof -
  have "nat y < length (py_range 0 size_px 1)"
    using assms by (simp add: py_range_up)
  then show ?thesis
    using assms by (simp add: gradient_calls_def nth_py_range_up)
qed

lemma paint_rects_append: "paint_rects (xs @ ys) cv = paint_rects ys (paint_rects xs cv)"
  by (induction xs cv rule: paint_rects.induct) simp_all

lemma paint_rows:
  "paint_rects (map (\<lambda>k. Rectangle (0, int k) (W, int k + 1) (col (int k))) [0 ..< n]) cv (x, y) =
     (if 0 \<le> x \<and> x \<le> W \<and> 0 \<le> y \<and> y \<le> int n \<and> 0 < n
      then (if y = int n then col (y - 1) else col y)
      else cv (x, y))"
proof (induction n)
  case 0
  show ?case by simp
next
  case (Suc n)
  show ?case
    by (auto simp: paint_rects_append Suc.IH fill_rect_def intro!: arg_cong[of _ _ col])
qed

lemma gradient_painted:
  assumes "0 \<le> x" "x < size_px" "0 \<le> y" "y < size_px"
  shows "paint_rects gradient_calls blank_canvas (x, y) = gradient_color y"
proof -
  have "gradient_calls =
      map (\<lambda>k. Rectangle (0, int k) (size_px, int k + 1) (gradient_color (int k))) [0 ..< nat size_px]"
    by (simp add: gradient_calls_def py_range_up o_def)
  then show ?thesis
    using assms paint_rows[of size_px gradient_color "nat size_px" blank_canvas x y]
    by (simp add: size_px_def)
qed

lemma blend_floor:
  "\<lfloor>of_int c0 * (1 - of_int y / 1024) + of_int c1 * (of_int y / (1024::rat))\<rfloor>
   = (c0 * (1024 - y) + c1 * y) div 1024"
proof -
  have "of_int c0 * (1 - of_int y / 1024) + of_int c1 * (of_int y / (1024::rat))
        = of_int (c0 * (1024 - y) + c1 * y) / of_int 1024"
    by (simp add: field_simps)
  then show ?thesis by (simp only: floor_divide_of_int_eq)
qed

text \<open>
  Claim C4, as stated, fails at the bottom row: the fraction is \<open>y / size\<close>, which is
  \<open>1023 / 1024\<close> at \<open>y = size - 1\<close>, not 1.
\<close>

theorem gradient_fraction_counterexample:
  "progress 0 = 0 \<and> progress (size_px - 1) = 1023 / 1024 \<and> progress (size_px - 1) \<noteq> 1"
  using progress_exact[of 0] progress_exact[of 1023] by (simp add: size_px_def)

text \<open>
  Claim C4, amended. For every row \<open>y\<close> with \<open>0 \<le> y < size\<close> the gradient step computes
  the fraction \<open>y / size\<close>, which runs from 0 at the top row to \<open>1023 / 1024\<close> at the
  bottom row; the colour of the row is the blend of the endpoints (100, 50, 255) and
  (40, 100, 255) by that fraction, each channel truncated to an integer (the float
  computation gives the truncation of the exact value), with alpha 255; the call of the row
  is the rectangle from \<open>(0, y)\<close> to \<open>(size, y + 1)\<close> in that colour, and after the loop
  the row \<open>y\<close> of the picture has that colour at every column.
\<close>

theorem gradient_rows:
  assumes "0 \<le> y" and "y < size_px"
  shows "length gradient_calls = nat size_px \<and>
         gradient_calls ! nat y = Rectangle (0, y) (size_px, y + 1) (gradient_color y) \<and>
         progress y = of_int y / of_int size_px \<and>
         progress 0 = 0 \<and> progress (size_px - 1) = 1023 / 1024 \<and>
         gradient_color y =
           (\<lfloor>100 * (1 - rat_of_int y / of_int size_px) + 40 * (of_int y / of_int size_px)\<rfloor>,
            \<lfloor>50 * (1 - rat_of_int y / of_int size_px) + 100 * (of_int y / of_int size_px)\<rfloor>,
            \<lfloor>255 * (1 - rat_of_int y / of_int size_px) + 255 * (of_int y / of_int size_px)\<rfloor>,
            255) \<and>
         (\<forall>x. 0 \<le> x \<and> x < size_px \<longrightarrow>
              paint_rects gradient_calls blank_canvas (x, y) = gradient_color y)"
proof -
  have y: "0 \<le> y" "y \<le> 1024" using assms by (simp_all add: size_px_def)
  have len: "length gradient_calls = nat size_px"
    by (simp add: gradient_calls_def py_range_up)
  have p: "progress y = of_int y / of_int size_px"
    using progress_exact[OF y] by (simp add: size_px_def)
  have ends: "progress 0 = 0 \<and> progress (size_px - 1) = 1023 / 1024"
    using progress_exact[of 0] progress_exact[of 1023] by (simp add: size_px_def)
  have r: "\<lfloor>100 * (1 - of_int y / 1024) + 40 * (of_int y / (1024::rat))\<rfloor>
           = (100 * (1024 - y) + 40 * y) div 1024"
    using blend_floor[of 100 y 40] by simp
  have g: "\<lfloor>50 * (1 - of_int y / 1024) + 100 * (of_int y / (1024::rat))\<rfloor>
           = (50 * (1024 - y) + 100 * y) div 1024"
    using blend_floor[of 50 y 100] by simp
  have b: "\<lfloor>255 * (1 - of_int y / 1024) + 255 * (of_int y / (1024::rat))\<rfloor> = 255"
    using blend_floor[of 255 y 255] by simp
  have c: "gradient_color y =
           (\<lfloor>100 * (1 - rat_of_int y / of_int size_px) + 40 * (of_int y / of_int size_px)\<rfloor>,
            \<lfloor>50 * (1 - rat_of_int y / of_int size_px) + 100 * (of_int y / of_int size_px)\<rfloor>,
            \<lfloor>255 * (1 - rat_of_int y / of_int size_px) + 255 * (of_int y / of_int size_px)\<rfloor>,
            255)"
    unfolding gradient_color_exact[OF y] size_px_def by (simp only: of_int_numeral r g b)
  show ?thesis
    using len gradient_calls_nth[OF assms] p ends c gradient_painted[OF _ _ assms]
    by blast
qed

theorem gradient_rows_witness:
  "(0::int) \<le> 512 \<and> 512 < size_px \<and>
   gradient_calls ! 512 = Rectangle (0, 512) (1024, 513) (70, 75, 255, 255) \<and>
   progress 512 = 1 / 2 \<and>
   paint_rects gradient_calls blank_canvas (0, 512) = (70, 75, 255, 255)"
proof -
  have a: "(0::int) \<le> 512" and b: "512 < size_px" by (simp_all add: size_px_def)
  have c: "gradient_color 512 = (70, 75, 255, 255)"
    using gradient_color_exact[of 512] by simp
  show ?thesis
    using a b gradient_rows [OF a b] by (simp add: c size_px_def)
qed

text \<open>
  Claim C10. Every colour of the gradient is opaque with blue 255; the top row is painted
  (100, 50, 255, 255); the fraction stays below 1 on every row, and the bottom endpoint
  (40, 100, 255) is the colour of no row (the bottom row is (40, 99, 255, 255)).
\<close>

theorem gradient_colours:
  "gradient_calls ! 0 = Rectangle (0, 0) (size_px, 1) (100, 50, 255, 255) \<and>
   (\<forall>c \<in> set gradient_calls.
      \<exists>y r g. c = Rectangle (0, y) (size_px, y + 1) (r, g, 255, 255) \<and> (r, g) \<noteq> (40, 100)) \<and>
   (\<forall>y \<in> set (py_range 0 size_px 1). progress y < 1 \<and> gradient_color y \<noteq> (40, 100, 255, 255))"
proof -
  have "gradient_color 0 = (100, 50, 255, 255)"
    using gradient_color_exact[of 0] by simp
  then have top: "gradient_calls ! 0 = Rectangle (0, 0) (size_px, 1) (100, 50, 255, 255)"
    using gradient_calls_nth[of 0] by (simp add: size_px_def)
  have green: "(50 * (1024 - y) + 100 * y) div 1024 < 100" if "0 \<le> y" "y < 1024" for y :: int
    using that by simp
  have calls: "\<exists>y r g. c = Rectangle (0, y) (size_px, y + 1) (r, g, 255, 255) \<and> (r, g) \<noteq> (40, 100)"
    if "c \<in> set gradient_calls" for c
  proof -
    from that obtain y where y: "0 \<le> y" "y < 1024"
      and c: "c = Rectangle (0, y) (size_px, y + 1) (gradient_color y)"
      by (auto simp: gradient_calls_def set_py_range_up size_px_def)
    show ?thesis
      using c gradient_color_exact[of y] y green[OF y] by auto
  qed
  have rows: "progress y < 1 \<and> gradient_color y \<noteq> (40, 100, 255, 255)"
    if "y \<in> set (py_range 0 size_px 1)" for y
  proof -
    from that have y: "0 \<le> y" "y < 1024" by (simp_all add: set_py_range_up size_px_def)
    have "gradient_color y \<noteq> (40, 100, 255, 255)"
      using gradient_color_exact[of y] y green[OF y] by auto
    moreover have "progress y < 1"
      using progress_exact[of y] y by simp
    ultimately show ?thesis by simp
  qed
  show ?thesis using top calls rows by blast
qed

theorem gradient_colours_witness:
  "1023 \<in> set (py_range 0 size_px 1) \<and> progress 1023 < 1 \<and>
   gradient_color 1023 = (40, 99, 255, 255) \<and> gradient_color 1023 \<noteq> (40, 100, 255, 255)"
proof -
  have m: "1023 \<in> set (py_range 0 size_px 1)" by (simp add: set_py_range_up size_px_def)
  have c: "gradient_color 1023 = (40, 99, 255, 255)"
    using gradient_color_exact[of 1023] by simp
  from gradient_colours
  have "\<forall>y \<in> set (py_range 0 size_px 1). progress y < 1 \<and> gradient_color y \<noteq> (40, 100, 255, 255)"
    by blast
  with m c show ?thesis by auto
qed

subsection \<open>The radial overlay\<close>

text \<open>
  The product with the literal \<open>0.3\<close> is rounded, and the literal itself is not 3/10.
  Both errors together stay below \<open>1 / 512\<close>, while the exact value
  \<open>153 * (256 - i) / 512\<close> lies at least that far from the next integers unless
  \<open>i = 256\<close> (153 is invertible modulo 512), where the product is exactly 0. So the
  truncation of the float equals the truncation of the exact value.
\<close>

lemma residue_nonzero:
  assumes "1 \<le> k" "k \<le> 255"
  shows "1 \<le> (153 * k) mod 512 \<and> (153 * k) mod 512 \<le> (511::int)"
proof -
  have "(153 * k) mod 512 \<noteq> 0"
  proof
    assume "(153 * k) mod 512 = 0"
    then have "512 dvd 153 * k" by (simp add: dvd_eq_mod_eq_0)
    then have "512 dvd 425 * (153 * k)" by (rule dvd_mult)
    moreover have "425 * (153 * k) = k + 512 * (127 * k)" by simp
    ultimately have "512 dvd k + 512 * (127 * k)" by simp
    then have "512 dvd (k + 512 * (127 * k)) - 512 * (127 * k)"
      by (intro dvd_diff dvd_triv_left)
    then have "512 dvd k" by (simp only: add_diff_cancel_right')
    then have "512 \<le> k" using assms(1) by (intro zdvd_imp_le) simp_all
    with assms(2) show False by simp
  qed
  moreover have "0 \<le> (153 * k) mod 512" "(153 * k) mod 512 < 512" by simp_all
  ultimately show ?thesis by linarith
qed

lemma radial_scaled:
  assumes "1 \<le> i" "i \<le> 256"
  shows "fmul 255 (fsub 1 (true_div i (size_px div 4))) = of_int (255 * (256 - i)) / 2 ^ 8"
proof -
  have one: "(1::rat) = of_int 256 / 2 ^ 8" by simp
  have d: "true_div i (size_px div 4) = of_int i / 2 ^ 8"
    using true_div_dyadic[of i 8] assms by (simp add: size_px_def)
  have s: "fsub 1 (of_int i / 2 ^ 8) = of_int (256 - i) / 2 ^ 8"
    unfolding one using assms by (intro fsub_dyadic) simp_all
  have "255 * (256 - i) \<le> 255 * 256" using assms by simp
  then have b: "255 * (256 - i) < 2 ^ 53" by simp
  have m: "fmul (of_int 255) (of_int (256 - i) / 2 ^ 8) = of_int (255 * (256 - i)) / 2 ^ 8"
    using assms b by (intro fmul_dyadic) simp_all
  show ?thesis
    using m by (simp only: d s of_int_numeral)
qed

lemma radial_alpha_exact:
  assumes "1 \<le> i" "i \<le> 256"
  shows "radial_alpha i = (153 * (256 - i)) div 512"
proof (cases "i = 256")
  case True
  have "fmul 255 (fsub 1 (true_div 256 (size_px div 4))) = 0"
    using radial_scaled[of 256] by simp
  then show ?thesis
    using True by (simp add: radial_alpha_def fmul_def fl_def py_int_def)
next
  case False
  define k where "k = 256 - i"
  have k: "1 \<le> k" "k \<le> 255" using assms False by (simp_all add: k_def)
  define c :: rat where "c = 5404319552844595 / 18014398509481984"
  define x :: rat where "x = of_int (255 * k) / 2 ^ 8 * c"
  define t :: rat where "t = of_int (153 * k) / 512"
  define n where "n = (153 * k) div 512"
  define r where "r = (153 * k) mod 512"
  have kr: "(1::rat) \<le> of_int k" "of_int k \<le> (255::rat)"
    using k by simp_all
  have alpha: "radial_alpha i = py_int (fl x)"
    using radial_scaled[OF assms]
    by (simp only: radial_alpha_def fmul_def fl_three_tenths x_def c_def k_def)
  define d1 :: rat where "d1 = 255 * (51 / (256 * 2 ^ 54))"
  define d2 :: rat where "d2 = 77 / 2 ^ 53"
  have small: "d1 + d2 < 1 / 512" "0 \<le> d1" "0 \<le> d2" "d1 < 1 / 512"
    by (simp_all add: d1_def d2_def)
  have tx: "x = t - of_int k * (51 / (256 * 2 ^ 54))"
    by (simp add: x_def t_def c_def field_simps)
  have xt: "x \<le> t" using kr by (simp add: tx)
  have t77: "t \<le> 77" using kr by (simp add: t_def)
  have xlow: "t - d1 \<le> x"
    using kr by (simp add: tx d1_def)
  have "153 / 512 \<le> t"
    using kr by (simp add: t_def)
  then have quarter: "1 / 4 \<le> x" using xlow small by linarith
  have "(2::rat) powi (- 1022) \<le> 2 powi (- 2)"
    by (rule power_int_increasing) simp_all
  also have "\<dots> = 1 / 4" by (simp add: power_int_minus_divide)
  finally have normal: "2 powi (- 1022) \<le> x" using quarter by linarith
  have "\<bar>fl x - x\<bar> \<le> x / 2 ^ 53" by (rule fl_error[OF normal])
  moreover have "x / 2 ^ 53 \<le> d2"
    unfolding d2_def using xt t77 by (intro divide_right_mono) simp_all
  ultimately have err: "\<bar>fl x - x\<bar> \<le> d2" by linarith
  have "153 * k = 512 * n + r"
    by (simp add: n_def r_def)
  then have "(of_int (153 * k) :: rat) = of_int (512 * n + r)" by (simp only:)
  then have tn: "t = of_int n + of_int r / 512"
    by (simp add: t_def field_simps)
  have r: "1 \<le> r" "r \<le> 511"
    using residue_nonzero[OF k] by (simp_all add: r_def)
  have rr: "(1::rat) \<le> of_int r" "of_int r \<le> (511::rat)"
    using r by simp_all
  have lo: "of_int n + 1 / 512 \<le> t" using rr(1) by (simp add: tn)
  have hi: "t \<le> of_int n + 511 / 512" using rr(2) by (simp add: tn)
  have above: "of_int n < fl x"
    using lo xlow err small by linarith
  have below: "fl x < of_int n + 1"
    using hi xt err small by linarith
  have fl: "\<lfloor>fl x\<rfloor> = n"
    using above below by (intro floor_unique) simp_all
  have "0 \<le> n" using k by (simp add: n_def)
  then have "(0::rat) \<le> of_int n" by simp
  then have "0 \<le> fl x" using above by linarith
  then have "py_int (fl x) = n" by (simp add: py_int_def fl)
  then show ?thesis by (simp add: alpha n_def k_def)
qed

lemma set_py_range_down: "set (py_range n 0 (- 1)) = {1 .. n}"
proof -
  have "set (py_range n 0 (- 1)) = (\<lambda>k. n - int k) ` {0 ..< nat n}"
    by (simp add: py_range_down)
  also have "\<dots> = {1 .. n}"
  proof (intro set_eqI iffI)
    fix i assume "i \<in> (\<lambda>k. n - int k) ` {0 ..< nat n}"
    then show "i \<in> {1 .. n}" by auto
  next
    fix i assume i: "i \<in> {1 .. n}"
    then have "i = n - int (nat (n - i))" and "nat (n - i) \<in> {0 ..< nat n}" by auto
    then show "i \<in> (\<lambda>k. n - int k) ` {0 ..< nat n}" by (rule image_eqI)
  qed
  finally show ?thesis .
qed

lemma radial_floor:
  "\<lfloor>255 * (1 - rat_of_int i / 256) * (3 / 10)\<rfloor> = (153 * (256 - i)) div 512"
proof -
  have "255 * (1 - rat_of_int i / 256) * (3 / 10) = of_int (153 * (256 - i)) / of_int 512"
    by (simp add: field_simps)
  then show ?thesis by (simp only: floor_divide_of_int_eq)
qed

text \<open>
  Claim C5. The overlay draws one circle outline per radius \<open>i\<close>, the radii decreasing
  by one from \<open>size // 4 = 256\<close> down to 1, each in the box from
  \<open>(size // 2 - i, size // 2 - i)\<close> to \<open>(size // 2 + i, size // 2 + i)\<close>, white, with
  alpha \<open>int(255 * (1 - i / (size // 4)) * 0.3)\<close>; that float computation equals the
  truncation of the exact value \<open>255 * (1 - i / maxRadius) * 0.3\<close> with
  \<open>maxRadius = size // 4\<close>.
\<close>

theorem radial_overlay:
  "py_range (size_px div 4) 0 (- 1) = map (\<lambda>k. size_px div 4 - int k) [0 ..< 256] \<and>
   radial_calls =
     map (\<lambda>i. Ellipse (size_px div 2 - i, size_px div 2 - i)
                       (size_px div 2 + i, size_px div 2 + i)
                       None (255, 255, 255, radial_alpha i) 2)
         (py_range (size_px div 4) 0 (- 1)) \<and>
   (\<forall>i \<in> set (py_range (size_px div 4) 0 (- 1)).
      1 \<le> i \<and> i \<le> size_px div 4 \<and>
      radial_alpha i =
        py_int (fmul (fmul 255 (fsub 1 (true_div i (size_px div 4)))) (fl (3 / 10))) \<and>
      radial_alpha i = \<lfloor>255 * (1 - rat_of_int i / of_int (size_px div 4)) * (3 / 10)\<rfloor>)"
proof -
  have q: "size_px div 4 = 256" by (simp add: size_px_def)
  have a: "py_range (size_px div 4) 0 (- 1) = map (\<lambda>k. size_px div 4 - int k) [0 ..< 256]"
    by (simp add: py_range_down q)
  have b: "radial_alpha i = \<lfloor>255 * (1 - rat_of_int i / of_int (size_px div 4)) * (3 / 10)\<rfloor>"
    if "i \<in> set (py_range (size_px div 4) 0 (- 1))" for i
  proof -
    from that have i: "1 \<le> i" "i \<le> 256" by (simp_all add: set_py_range_down q)
    show ?thesis
      using radial_alpha_exact[OF i] radial_floor[of i] by (simp add: q)
  qed
  have c: "1 \<le> i \<and> i \<le> size_px div 4"
    if "i \<in> set (py_range (size_px div 4) 0 (- 1))" for i
    using that by (simp add: set_py_range_down)
  show ?thesis
    using a b c by (simp add: radial_calls_def radial_alpha_def)
qed

theorem radial_overlay_witness:
  "100 \<in> set (py_range (size_px div 4) 0 (- 1)) \<and>
   radial_alpha 100 = \<lfloor>255 * (1 - rat_of_int 100 / of_int (size_px div 4)) * (3 / 10)\<rfloor> \<and>
   radial_alpha 100 = 46"
proof -
  have m: "100 \<in> set (py_range (size_px div 4) 0 (- 1))"
    by (simp add: set_py_range_down size_px_def)
  from radial_overlay
  have "\<forall>i \<in> set (py_range (size_px div 4) 0 (- 1)).
          radial_alpha i = \<lfloor>255 * (1 - rat_of_int i / of_int (size_px div 4)) * (3 / 10)\<rfloor>"
    by blast
  with m have e: "radial_alpha 100 = \<lfloor>255 * (1 - rat_of_int 100 / of_int (size_px div 4)) * (3 / 10)\<rfloor>"
    by blast
  have "radial_alpha 100 = 46"
    unfolding e using radial_floor[of 100] by (simp add: size_px_def)
  with m e show ?thesis by simp
qed

end
